theory Spec2Isabelle
  imports Complex_Main
begin

section \<open>The chart widgets of src/js/charts/NumberChart.js\<close>

text \<open>
  The file defines two widgets, \<open>NumberChart\<close> and \<open>LineChart\<close>. Both register series
  identifiers in \<open>chartMap\<close>; \<open>LineChart\<close> also keeps one sample buffer per identifier in
  \<open>data\<close> and the upper bound of the y-axis in \<open>maxDisplayedValue\<close>. The embedding keeps
  that state and leaves the drawing (svg, canvas, d3 scales and line generators, the
  legend) out: no branch of the code below reads it back. The lookup \<open>dataTypes\<close>, which
  gives the legend its colours and labels, is taken to know every identifier. Series
  identifiers are data-type ids, numbers used as array indices, hence \<open>nat\<close>. The two
  widgets have fields of the same name; those of \<open>NumberChart\<close> carry the prefix \<open>nc_\<close>.

  Numbers. A sample is any JavaScript number: finite, an infinity or \<open>NaN\<close>, a value of
  \<open>jsnum\<close>; so is \<open>maxDisplayedValue\<close>. \<open>period\<close> and \<open>samplingTime\<close> are finite numbers, and
  the capacity \<open>period / samplingTime * 1000\<close> is computed without the rounding of IEEE
  doubles; every capacity a theorem below computes (from 6/10, 6/1000, 6/2000, 6/3000,
  6/6000 and 1300/10) comes out the same in doubles. \<open>-0\<close> is identified with \<open>0\<close>.

  The engine. \<open>Math.max(...arr)\<close> passes every element of \<open>arr\<close> as an argument, and an engine
  throws a RangeError when there are more arguments than it accepts. That bound is not in
  the source: it is the parameter \<open>limit\<close> of \<open>Math_max\<close> and of every function that
  reaches it. The scenarios below take 125000, about what node 22 accepts.
\<close>

subsection \<open>JavaScript numbers, arrays and exceptions\<close>

datatype jsnum = Fin rat | PInf | NInf | NaN

text \<open>\<open>a < b\<close> and \<open>a <= b\<close> on numbers; every comparison with \<open>NaN\<close> is false.\<close>

fun js_less :: "jsnum \<Rightarrow> jsnum \<Rightarrow> bool" where
  "js_less NaN b = False"
| "js_less a NaN = False"
| "js_less (Fin a) (Fin b) = (a < b)"
| "js_less NInf NInf = False"
| "js_less NInf b = True"
| "js_less a NInf = False"
| "js_less PInf b = False"
| "js_less a PInf = True"

fun js_le :: "jsnum \<Rightarrow> jsnum \<Rightarrow> bool" where
  "js_le NaN b = False"
| "js_le a NaN = False"
| "js_le (Fin a) (Fin b) = (a \<le> b)"
| "js_le NInf b = True"
| "js_le a PInf = True"
| "js_le a NInf = False"
| "js_le PInf b = False"

text \<open>\<open>a / b\<close> on finite numbers: a zero divisor gives an infinity or \<open>NaN\<close>.\<close>

definition js_div :: "rat \<Rightarrow> rat \<Rightarrow> jsnum" where
  "js_div a b =
     (if b = 0 then (if 0 < a then PInf else if a < 0 then NInf else NaN)
      else Fin (a / b))"

text \<open>\<open>a * k\<close> and \<open>a - k\<close> for a finite, positive constant \<open>k\<close>.\<close>

fun js_times :: "jsnum \<Rightarrow> rat \<Rightarrow> jsnum" where
  "js_times (Fin a) k = Fin (a * k)"
| "js_times a k = a"

fun js_minus :: "jsnum \<Rightarrow> rat \<Rightarrow> jsnum" where
  "js_minus (Fin a) k = Fin (a - k)"
| "js_minus a k = a"

datatype error = TypeError | RangeError

text \<open>
  A call either returns or throws. A throw does not undo the assignments made before
  it, so both results carry the state the call leaves behind.
\<close>

datatype 's outcome = Done 's | Thrown error 's

fun state_of :: "'s outcome \<Rightarrow> 's" where
  "state_of (Done s) = s"
| "state_of (Thrown e s) = s"

text \<open>
  A number is a valid array length when it is an integer between \<open>0\<close> and \<open>2^32 - 1\<close>;
  \<open>new Array(len)\<close> and an assignment to \<open>.length\<close> throw a RangeError otherwise.
\<close>

fun is_array_length :: "jsnum \<Rightarrow> bool" where
  "is_array_length (Fin q) = (q = of_int \<lfloor>q\<rfloor> \<and> 0 \<le> q \<and> q \<le> 4294967295)"
| "is_array_length a = False"

fun array_length :: "jsnum \<Rightarrow> nat" where
  "array_length (Fin q) = nat \<lfloor>q\<rfloor>"
| "array_length a = 0"

text \<open>
  \<open>chartMap\<close>, \<open>data\<close> are created as \<open>[]\<close>. \<open>data\<close> is indexed by the series identifier
  (a data-type id, a number), so it is an array with holes: \<open>None\<close> is a hole, which
  reads as \<open>undefined\<close> and which \<open>Object.keys\<close> skips. Reading past the end gives
  \<open>undefined\<close>, writing past the end extends the array with holes, \<open>delete\<close> leaves a
  hole and keeps the length.
\<close>

definition js_get :: "'a option list \<Rightarrow> nat \<Rightarrow> 'a option" where
  "js_get xs i = (if i < length xs then xs ! i else None)"

definition js_set :: "'a option list \<Rightarrow> nat \<Rightarrow> 'a \<Rightarrow> 'a option list" where
  "js_set xs i v =
     (if i < length xs then xs[i := Some v]
      else xs @ replicate (i - length xs) None @ [Some v])"

definition js_delete :: "'a option list \<Rightarrow> nat \<Rightarrow> 'a option list" where
  "js_delete xs i = (if i < length xs then xs[i := None] else xs)"

text \<open>\<open>xs.indexOf(x)\<close>: the first index holding \<open>x\<close>, or \<open>-1\<close>.\<close>

fun indexOf :: "'a list \<Rightarrow> 'a \<Rightarrow> int" where
  "indexOf [] x = - 1"
| "indexOf (y # ys) x =
     (if y = x then 0 else (let i = indexOf ys x in if i < 0 then - 1 else i + 1))"

text \<open>
  \<open>xs.splice(start, deleteCount)\<close>, the array it leaves: a negative \<open>start\<close> counts from
  the end, and the count is cut to what is left after \<open>start\<close>.
\<close>

definition js_splice :: "'a list \<Rightarrow> int \<Rightarrow> nat \<Rightarrow> 'a list" where
  "js_splice xs start deleteCount =
     (let len = int (length xs);
          from = (if start < 0 then max (len + start) 0 else min start len);
          count = min (int deleteCount) (len - from)
      in take (nat from) xs @ drop (nat (from + count)) xs)"

text \<open>
  \<open>Math.max(...arr)\<close>: a RangeError for more arguments than the engine accepts; otherwise
  \<open>NaN\<close> as soon as one argument is \<open>NaN\<close>, the largest argument if there is one, and
  \<open>-Infinity\<close> for no arguments.
\<close>

definition js_max2 :: "jsnum \<Rightarrow> jsnum \<Rightarrow> jsnum" where
  "js_max2 a b = (if a = NaN \<or> b = NaN then NaN else if js_less a b then b else a)"

definition Math_max :: "nat \<Rightarrow> jsnum list \<Rightarrow> error + jsnum" where
  "Math_max limit arr =
     (if limit < length arr then Inl RangeError else Inr (fold js_max2 arr NInf))"

subsection \<open>NumberChart\<close>

text \<open>
  \<open>shown\<close> is the text of \<open>valueContainer\<close>: the number whose rendering the element
  shows (\<open>setup\<close> displays "0").
\<close>

record NumberChart =
  nc_chartMap :: "nat list"
  nc_samplingTime :: rat
  shown :: jsnum

definition NumberChart_init :: NumberChart where
  "NumberChart_init = \<lparr>nc_chartMap = [], nc_samplingTime = 10, shown = Fin 0\<rparr>"

definition NumberChart_push :: "nat \<Rightarrow> jsnum \<Rightarrow> NumberChart \<Rightarrow> NumberChart" where
  "NumberChart_push lineId v c = c\<lparr>shown := v\<rparr>"

definition NumberChart_addDataType :: "nat \<Rightarrow> NumberChart \<Rightarrow> NumberChart" where
  "NumberChart_addDataType dataType c = c\<lparr>nc_chartMap := nc_chartMap c @ [dataType]\<rparr>"

definition NumberChart_removeDataType :: "nat \<Rightarrow> NumberChart \<Rightarrow> NumberChart" where
  "NumberChart_removeDataType dataType c =
     c\<lparr>nc_chartMap := js_splice (nc_chartMap c) (indexOf (nc_chartMap c) dataType) 1\<rparr>"

subsection \<open>LineChart\<close>

text \<open>
  \<open>yDomain\<close> is the domain of \<open>yScale\<close>, set up as \<open>[1, 0]\<close>; \<open>rescales\<close> counts the calls
  of \<open>rescaleAxis\<close>, so that "a rescale is triggered" can be read off the state.
\<close>

record LineChart =
  chartMap :: "nat list"
  data :: "jsnum list option list"
  maxDisplayedValue :: jsnum
  period :: rat
  samplingTime :: rat
  yDomain :: "jsnum \<times> jsnum"
  rescales :: nat

definition LineChart_init :: LineChart where
  "LineChart_init =
     \<lparr>chartMap = [], data = [], maxDisplayedValue = Fin 0, period = 6, samplingTime = 10,
      yDomain = (Fin 1, Fin 0), rescales = 0\<rparr>"

definition getSamplingTime :: "LineChart \<Rightarrow> rat" where
  "getSamplingTime c = samplingTime c"

definition setSamplingTime :: "rat \<Rightarrow> LineChart \<Rightarrow> LineChart" where
  "setSamplingTime t c = c\<lparr>samplingTime := t\<rparr>"

definition getAmountOfValues :: "LineChart \<Rightarrow> jsnum" where
  "getAmountOfValues c = js_times (js_div (period c) (getSamplingTime c)) 1000"

text \<open>
  The loop of \<open>getMaxValueFromData\<close> over \<open>Object.keys(me.data)\<close>: the live entries in
  ascending index order, starting from \<open>maxValue = 0\<close>. A RangeError of \<open>Math.max\<close> ends
  the loop and the call. \<open>max > maxValue\<close> is false when \<open>max\<close> is \<open>NaN\<close> or \<open>-Infinity\<close>, so a
  buffer that holds a \<open>NaN\<close>, or no sample, is passed over.
\<close>

fun max_loop :: "nat \<Rightarrow> jsnum list option list \<Rightarrow> jsnum \<Rightarrow> error + jsnum" where
  "max_loop limit [] maxValue = Inr maxValue"
| "max_loop limit (None # es) maxValue = max_loop limit es maxValue"
| "max_loop limit (Some arr # es) maxValue =
     (case Math_max limit arr of
        Inl e \<Rightarrow> Inl e
      | Inr m \<Rightarrow> max_loop limit es (if js_less maxValue m then m else maxValue))"

definition getMaxValueFromData :: "nat \<Rightarrow> LineChart \<Rightarrow> error + jsnum" where
  "getMaxValueFromData limit c = max_loop limit (data c) (Fin 0)"

definition rescaleAxis :: "LineChart \<Rightarrow> LineChart" where
  "rescaleAxis c = c\<lparr>yDomain := (maxDisplayedValue c, Fin 0), rescales := rescales c + 1\<rparr>"

text \<open>
  \<open>push\<close>: \<open>me.data[dataType].push(value)\<close> throws a TypeError when the identifier has no
  buffer. After the append the array is not empty, so \<open>hd\<close> is the element at index 0 and
  \<open>tl\<close> is what \<open>shift()\<close> leaves. \<open>evict\<close> is the body of the first \<open>if\<close>: when
  \<open>getMaxValueFromData\<close> throws there, the sample is appended and the oldest one dropped,
  but \<open>maxDisplayedValue\<close> is not assigned, nothing is rescaled, and the rest of \<open>push\<close>
  does not run.
\<close>

definition evict :: "nat \<Rightarrow> nat \<Rightarrow> LineChart \<Rightarrow> jsnum list \<Rightarrow> LineChart outcome" where
  "evict limit dataType c arr =
     (let droppedValue = hd arr;
          c1 = c\<lparr>data := (data c)[dataType := Some (tl arr)]\<rparr>
      in if js_le (maxDisplayedValue c1) droppedValue
         then (case getMaxValueFromData limit c1 of
                 Inl e \<Rightarrow> Thrown e c1
               | Inr m \<Rightarrow> Done (rescaleAxis (c1\<lparr>maxDisplayedValue := m\<rparr>)))
         else Done c1)"

definition LineChart_push :: "nat \<Rightarrow> nat \<Rightarrow> jsnum \<Rightarrow> LineChart \<Rightarrow> LineChart outcome" where
  "LineChart_push limit dataType v c =
     (case js_get (data c) dataType of
        None \<Rightarrow> Thrown TypeError c
      | Some old \<Rightarrow>
          (let arr = old @ [v];
               c1 = c\<lparr>data := (data c)[dataType := Some arr]\<rparr>
           in case (if js_le (getAmountOfValues c1) (Fin (of_nat (length arr)))
                    then evict limit dataType c1 arr else Done c1) of
                Thrown e c2 \<Rightarrow> Thrown e c2
              | Done c2 \<Rightarrow>
                  Done (if js_less (maxDisplayedValue c2) v
                        then rescaleAxis (c2\<lparr>maxDisplayedValue := v\<rparr>) else c2)))"

text \<open>
  \<open>addDataType\<close>: \<open>new Array(me.getAmountOfValues() - 1).fill(0)\<close> throws a RangeError,
  before anything is assigned, when the argument is not a valid array length.
\<close>

definition LineChart_addDataType :: "nat \<Rightarrow> LineChart \<Rightarrow> LineChart outcome" where
  "LineChart_addDataType dataType c =
     (let len = js_minus (getAmountOfValues c) 1
      in if is_array_length len
         then Done (c\<lparr>data := js_set (data c) dataType (replicate (array_length len) (Fin 0)),
                      chartMap := chartMap c @ [dataType]\<rparr>)
         else Thrown RangeError c)"

text \<open>
  \<open>removeDataType\<close>: when \<open>getMaxValueFromData\<close> throws, the identifier and its buffer
  are gone and \<open>maxDisplayedValue\<close> keeps its old value.
\<close>

definition LineChart_removeDataType :: "nat \<Rightarrow> nat \<Rightarrow> LineChart \<Rightarrow> LineChart outcome" where
  "LineChart_removeDataType limit dataType c =
     (let c1 = c\<lparr>chartMap := js_splice (chartMap c) (indexOf (chartMap c) dataType) 1\<rparr>;
          c2 = c1\<lparr>data := js_delete (data c1) dataType\<rparr>
      in case getMaxValueFromData limit c2 of
           Inl e \<Rightarrow> Thrown e c2
         | Inr m \<Rightarrow> Done (c2\<lparr>maxDisplayedValue := m\<rparr>))"

text \<open>
  \<open>changePeriod\<close>: the loop over \<open>Object.keys(me.data)\<close> cuts every buffer longer than
  the new capacity with \<open>me.data[dataType].length = me.getAmountOfValues()\<close>, which
  throws a RangeError for a capacity that is not a valid array length; the buffers
  visited before stay cut. The capacity is the same in every iteration.
\<close>

fun adjust :: "jsnum \<Rightarrow> jsnum list option list \<Rightarrow> jsnum list option list outcome" where
  "adjust cap [] = Done []"
| "adjust cap (None # es) = map_outcome (Cons None) (adjust cap es)"
| "adjust cap (Some arr # es) =
     (if js_less cap (Fin (of_nat (length arr)))
      then (if is_array_length cap
            then map_outcome (Cons (Some (take (array_length cap) arr))) (adjust cap es)
            else Thrown RangeError (Some arr # es))
      else map_outcome (Cons (Some arr)) (adjust cap es))"

definition changePeriod :: "rat \<Rightarrow> LineChart \<Rightarrow> LineChart outcome" where
  "changePeriod newPeriod c =
     (let c1 = c\<lparr>period := newPeriod\<rparr>
      in map_outcome (\<lambda>d. c1\<lparr>data := d\<rparr>) (adjust (getAmountOfValues c1) (data c1)))"

subsection \<open>Sequences of calls\<close>

datatype call =
    AddDataType nat
  | Push nat jsnum
  | RemoveDataType nat
  | ChangePeriod rat
  | SetSamplingTime rat

fun exec :: "nat \<Rightarrow> call \<Rightarrow> LineChart \<Rightarrow> LineChart outcome" where
  "exec limit (AddDataType s) c = LineChart_addDataType s c"
| "exec limit (Push s v) c = LineChart_push limit s v c"
| "exec limit (RemoveDataType s) c = LineChart_removeDataType limit s c"
| "exec limit (ChangePeriod p) c = changePeriod p c"
| "exec limit (SetSamplingTime t) c = Done (setSamplingTime t c)"

text \<open>
  The state after a sequence of calls. A call that throws leaves its state behind and
  the caller goes on with it.
\<close>

fun run :: "nat \<Rightarrow> call list \<Rightarrow> LineChart \<Rightarrow> LineChart" where
  "run limit [] c = c"
| "run limit (x # xs) c = run limit xs (state_of (exec limit x c))"

subsection \<open>Samples, bounds and maxima\<close>

text \<open>All samples of all live buffers.\<close>

definition samples :: "jsnum list option list \<Rightarrow> jsnum set" where
  "samples d = (\<Union>e \<in> set d. \<Union>arr \<in> set_option e. set arr)"

text \<open>No live buffer is longer than the engine accepts as arguments of one call.\<close>

definition within_limit :: "nat \<Rightarrow> jsnum list option list \<Rightarrow> bool" where
  "within_limit limit d \<longleftrightarrow> (\<forall>e \<in> set d. \<forall>arr \<in> set_option e. length arr \<le> limit)"

text \<open>
  \<open>greatest S r\<close>: \<open>r\<close> is the maximum of the numbers \<open>S\<close>. \<open>floored_max S r\<close>: \<open>r\<close> is the
  largest of 0 and the numbers \<open>S\<close>.
\<close>

definition greatest :: "jsnum set \<Rightarrow> jsnum \<Rightarrow> bool" where
  "greatest S r \<longleftrightarrow> r \<in> S \<and> (\<forall>x \<in> S. js_le x r)"

definition floored_max :: "jsnum set \<Rightarrow> jsnum \<Rightarrow> bool" where
  "floored_max S r \<longleftrightarrow> js_le (Fin 0) r \<and> (\<forall>x \<in> S. js_le x r) \<and> (r = Fin 0 \<or> r \<in> S)"

subsection \<open>Scenarios\<close>

text \<open>
  With the constructor's period of 6 s, a sampling time of 2000 ms gives the capacity 3
  and new buffers \<open>[0, 0]\<close>; 3000 ms gives 2 and \<open>[0]\<close>; 6000 ms gives 1 and \<open>[]\<close>.
\<close>

definition below_zero_chart :: LineChart where
  "below_zero_chart =
     run 125000 [SetSamplingTime 2000, AddDataType 0, Push 0 (Fin (- 1))] LineChart_init"

definition all_negative_chart :: LineChart where
  "all_negative_chart =
     run 125000 [SetSamplingTime 2000, AddDataType 0, Push 0 (Fin (- 1)), Push 0 (Fin (- 1))]
       LineChart_init"

definition five_and_minus_three :: LineChart where
  "five_and_minus_three =
     run 125000 [SetSamplingTime 3000, AddDataType 0, AddDataType 1, Push 0 (Fin 5),
       Push 1 (Fin (- 3))] LineChart_init"

definition five_and_three :: LineChart where
  "five_and_three =
     run 125000 [SetSamplingTime 3000, AddDataType 0, AddDataType 1, Push 0 (Fin 5),
       Push 1 (Fin 3)] LineChart_init"

text \<open>
  A \<open>NaN\<close> sample next to the sample 100 in series 0, and the displayed maximum 200 as
  the oldest sample of series 1.
\<close>

definition nan_chart :: LineChart where
  "nan_chart =
     run 125000 [SetSamplingTime 2000, AddDataType 0, AddDataType 1, Push 0 NaN,
       Push 0 (Fin 100), Push 1 (Fin 200), Push 1 (Fin 0)] LineChart_init"

text \<open>A single buffer that holds the sample 5 and a \<open>NaN\<close>.\<close>

definition five_and_nan_chart :: LineChart where
  "five_and_nan_chart =
     run 125000 [SetSamplingTime 2000, AddDataType 0, Push 0 (Fin 5), Push 0 NaN] LineChart_init"

text \<open>A period of 1300 s: the capacity is 130000 and a new buffer has 129999 zeros.\<close>

definition long_chart :: LineChart where
  "long_chart = run 125000 [ChangePeriod 1300, AddDataType 0] LineChart_init"

definition two_long_chart :: LineChart where
  "two_long_chart = run 125000 [ChangePeriod 1300, AddDataType 0, AddDataType 1] LineChart_init"

text \<open>Capacity 1: the buffer is empty between the pushes.\<close>

definition single_slot_chart :: LineChart where
  "single_slot_chart =
     run 125000 [SetSamplingTime 6000, AddDataType 0, Push 0 (Fin 5)] LineChart_init"

text \<open>601 strictly increasing values: 1, 2, ..., 601.\<close>

definition increasing_601 :: "jsnum list" where
  "increasing_601 = map (\<lambda>n. Fin (rat_of_nat n)) [1..<602]"

text \<open>
  Calls that leave \<open>period\<close> and \<open>samplingTime\<close> alone, and the state they keep when
  both have the constructor's values: capacity 600, every live buffer of length 599.
\<close>

fun keeps_config :: "call \<Rightarrow> bool" where
  "keeps_config (ChangePeriod p) = False"
| "keeps_config (SetSamplingTime t) = False"
| "keeps_config x = True"

fun is_push :: "call \<Rightarrow> bool" where
  "is_push (Push s v) = True"
| "is_push x = False"

definition default_window :: "LineChart \<Rightarrow> bool" where
  "default_window c \<longleftrightarrow>
     period c = 6 \<and> samplingTime c = 10 \<and>
     (\<forall>s buf. js_get (data c) s = Some buf \<longrightarrow> length buf = 599)"

text \<open>
  A chart whose sampling time is raised after a series was added: the buffer has 5
  samples and the capacity drops from 6 to 3.
\<close>

definition oversized_chart :: LineChart where
  "oversized_chart =
     run 125000 [SetSamplingTime 1000, AddDataType 0, SetSamplingTime 2000] LineChart_init"

section \<open>Properties\<close>

subsection \<open>The order of the numbers\<close>

lemma js_le_not_NaN: "js_le a b \<Longrightarrow> a \<noteq> NaN \<and> b \<noteq> NaN"
  by (cases a; cases b) simp_all

lemma js_le_refl: "a \<noteq> NaN \<Longrightarrow> js_le a a"
  by (cases a) simp_all

lemma js_le_trans: "js_le a b \<Longrightarrow> js_le b c \<Longrightarrow> js_le a c"
  by (cases a; cases b; cases c) simp_all

lemma js_le_antisym: "js_le a b \<Longrightarrow> js_le b a \<Longrightarrow> a = b"
  by (cases a; cases b) simp_all

lemma js_less_imp_le: "js_less a b \<Longrightarrow> js_le a b"
  by (cases a; cases b) simp_all

lemma js_not_less: "a \<noteq> NaN \<Longrightarrow> b \<noteq> NaN \<Longrightarrow> \<not> js_less a b \<Longrightarrow> js_le b a"
  by (cases a; cases b) simp_all

lemma js_le_not_less: "js_le a b \<Longrightarrow> \<not> js_less b a"
  by (cases a; cases b) simp_all

lemma js_less_le_Fin: "js_less a (Fin x) \<Longrightarrow> x \<le> y \<Longrightarrow> js_le a (Fin y)"
  by (cases a) simp_all

lemma js_less_NInf [simp]: "\<not> js_less a NInf"
  by (cases a) simp_all

subsection \<open>Samples and array entries\<close>

lemma finite_samples [simp]: "finite (samples d)"
  by (simp add: samples_def)

lemma samples_Nil [simp]: "samples [] = {}"
  by (simp add: samples_def)

lemma samples_Cons [simp]:
  "samples (e # es) = (case e of None \<Rightarrow> {} | Some arr \<Rightarrow> set arr) \<union> samples es"
  by (cases e) (simp_all add: samples_def)

lemma samples_append [simp]: "samples (xs @ ys) = samples xs \<union> samples ys"
  by (simp add: samples_def)

lemma within_limit_Nil [simp]: "within_limit limit []"
  by (simp add: within_limit_def)

lemma within_limit_Cons [simp]:
  "within_limit limit (e # es) \<longleftrightarrow>
     (case e of None \<Rightarrow> True | Some arr \<Rightarrow> length arr \<le> limit) \<and> within_limit limit es"
  by (cases e) (simp_all add: within_limit_def)

lemma js_get_update:
  "js_get (d[i := e]) j = (if j = i \<and> i < length d then e else js_get d j)"
  by (simp add: js_get_def)

lemma js_get_js_set: "js_get (js_set d i v) j = (if j = i then Some v else js_get d j)"
  by (auto simp: js_get_def js_set_def nth_append)

lemma js_get_js_delete: "js_get (js_delete d i) j = (if j = i then None else js_get d j)"
  by (auto simp: js_get_def js_delete_def)

lemma js_get_Some_length: "js_get d i = Some arr \<Longrightarrow> i < length d"
  by (auto simp: js_get_def split: if_splits)

lemma in_set_iff_js_get: "Some arr \<in> set d \<longleftrightarrow> (\<exists>i. js_get d i = Some arr)"
proof
  assume "Some arr \<in> set d"
  then obtain i where "i < length d" "d ! i = Some arr"
    by (auto simp: in_set_conv_nth)
  then have "js_get d i = Some arr"
    by (simp add: js_get_def)
  then show "\<exists>i. js_get d i = Some arr" ..
next
  assume "\<exists>i. js_get d i = Some arr"
  then show "Some arr \<in> set d"
    by (auto simp: js_get_def in_set_conv_nth split: if_splits)
qed

lemma samples_iff: "x \<in> samples d \<longleftrightarrow> (\<exists>i arr. js_get d i = Some arr \<and> x \<in> set arr)"
proof -
  have "x \<in> samples d \<longleftrightarrow> (\<exists>arr. Some arr \<in> set d \<and> x \<in> set arr)"
    by (auto simp: samples_def)
  then show ?thesis
    unfolding in_set_iff_js_get by blast
qed

lemma within_limit_iff:
  "within_limit limit d \<longleftrightarrow> (\<forall>i arr. js_get d i = Some arr \<longrightarrow> length arr \<le> limit)"
proof -
  have "within_limit limit d \<longleftrightarrow> (\<forall>arr. Some arr \<in> set d \<longrightarrow> length arr \<le> limit)"
    by (auto simp: within_limit_def)
  then show ?thesis
    unfolding in_set_iff_js_get by blast
qed

lemma buffer_subset_samples: "js_get d i = Some arr \<Longrightarrow> set arr \<subseteq> samples d"
  using samples_iff by blast

subsection \<open>Math.max and the loop of getMaxValueFromData\<close>

lemma fold_js_max2:
  assumes "NaN \<notin> set arr" and "m \<noteq> NaN"
  shows "fold js_max2 arr m \<noteq> NaN \<and> js_le m (fold js_max2 arr m)
         \<and> (\<forall>x \<in> set arr. js_le x (fold js_max2 arr m))
         \<and> (fold js_max2 arr m = m \<or> fold js_max2 arr m \<in> set arr)"
  using assms
proof (induction arr arbitrary: m)
  case Nil
  then show ?case by (simp add: js_le_refl)
next
  case (Cons x xs)
  let ?m1 = "js_max2 x m"
  have x: "x \<noteq> NaN" and xs: "NaN \<notin> set xs"
    using Cons.prems(1) by auto
  have m1: "?m1 \<noteq> NaN" "js_le m ?m1" "js_le x ?m1" "?m1 = m \<or> ?m1 = x"
    using x Cons.prems(2)
    by (auto simp: js_max2_def js_le_refl js_less_imp_le js_not_less)
  note ih = Cons.IH [OF xs m1(1)]
  have "js_le m (fold js_max2 xs ?m1)" "js_le x (fold js_max2 xs ?m1)"
    using ih m1(2,3) by (blast intro: js_le_trans)+
  with ih m1(4) show ?case
    by auto
qed

lemma Math_max_within:
  assumes "NaN \<notin> set arr" and "length arr \<le> limit"
  shows "\<exists>m. Math_max limit arr = Inr m \<and> m \<noteq> NaN \<and> (\<forall>x \<in> set arr. js_le x m)
           \<and> (m = NInf \<or> m \<in> set arr)"
  using assms fold_js_max2 [of arr NInf] by (simp add: Math_max_def)

lemma max_loop_floored:
  assumes "NaN \<notin> samples es" and "within_limit limit es" and "m \<noteq> NaN"
  shows "\<exists>r. max_loop limit es m = Inr r \<and> r \<noteq> NaN \<and> js_le m r
           \<and> (\<forall>x \<in> samples es. js_le x r) \<and> (r = m \<or> r \<in> samples es)"
  using assms
proof (induction limit es m rule: max_loop.induct)
  case (1 limit maxValue)
  then show ?case by (simp add: js_le_refl)
next
  case (2 limit es maxValue)
  then show ?case by simp
next
  case (3 limit arr es maxValue)
  have arr: "NaN \<notin> set arr" "length arr \<le> limit"
    and es: "NaN \<notin> samples es" "within_limit limit es"
    using "3.prems" by simp_all
  from Math_max_within [OF arr] obtain m where
    m: "Math_max limit arr = Inr m" "m \<noteq> NaN" "\<forall>x \<in> set arr. js_le x m" "m = NInf \<or> m \<in> set arr"
    by blast
  let ?m1 = "if js_less maxValue m then m else maxValue"
  have m1: "?m1 \<noteq> NaN" "js_le maxValue ?m1" "js_le m ?m1"
    using m(2) "3.prems"(3) by (auto simp: js_le_refl js_less_imp_le js_not_less)
  have pick: "?m1 = maxValue \<or> ?m1 \<in> set arr"
    using m(4) by auto
  from "3.IH" [OF m(1) es m1(1)] obtain r where
    r: "max_loop limit es ?m1 = Inr r" "r \<noteq> NaN" "js_le ?m1 r"
      "\<forall>x \<in> samples es. js_le x r" "r = ?m1 \<or> r \<in> samples es"
    by blast
  have "js_le maxValue r"
    using m1(2) r(3) by (rule js_le_trans)
  moreover have "\<forall>x \<in> set arr. js_le x r"
    using m(3) m1(3) r(3) by (blast intro: js_le_trans)
  moreover have "r = maxValue \<or> r \<in> set arr \<union> samples es"
    using r(5) pick by auto
  ultimately show ?case
    using m(1) r(1,2,4) by auto
qed

lemma max_loop_returns:
  "within_limit limit es \<Longrightarrow> \<exists>r. max_loop limit es m = Inr r"
  by (induction limit es m rule: max_loop.induct) (simp_all add: Math_max_def)

lemma getMax_returns:
  "within_limit limit (data c) \<Longrightarrow> \<exists>r. getMaxValueFromData limit c = Inr r"
  by (simp add: getMaxValueFromData_def max_loop_returns)

lemma getMax_floored:
  assumes "NaN \<notin> samples (data c)" and "within_limit limit (data c)"
  shows "\<exists>r. getMaxValueFromData limit c = Inr r \<and> floored_max (samples (data c)) r"
  using max_loop_floored [OF assms, of "Fin 0"]
  by (auto simp: getMaxValueFromData_def floored_max_def)

lemma floored_max_greatest:
  assumes "floored_max S r" and "x \<in> S" and "js_le (Fin 0) x"
  shows "greatest S r"
proof -
  have "r \<in> S"
  proof (cases "r = Fin 0")
    case True
    then have "js_le x (Fin 0)"
      using assms(1,2) by (simp add: floored_max_def)
    then have "x = Fin 0"
      using assms(3) by (rule js_le_antisym)
    with True assms(2) show ?thesis by simp
  next
    case False
    with assms(1) show ?thesis by (simp add: floored_max_def)
  qed
  with assms(1) show ?thesis
    by (simp add: greatest_def floored_max_def)
qed

subsection \<open>What a push does\<close>

lemma getAmountOfValues_cong:
  "period c' = period c \<Longrightarrow> samplingTime c' = samplingTime c \<Longrightarrow>
   getAmountOfValues c' = getAmountOfValues c"
  by (simp add: getAmountOfValues_def getSamplingTime_def)

lemma rescaleAxis_fields [simp]:
  "data (rescaleAxis c) = data c" "maxDisplayedValue (rescaleAxis c) = maxDisplayedValue c"
  "period (rescaleAxis c) = period c" "samplingTime (rescaleAxis c) = samplingTime c"
  "chartMap (rescaleAxis c) = chartMap c"
  by (simp_all add: rescaleAxis_def)

lemma evict_fields [simp]:
  "data (state_of (evict limit s c arr)) = (data c)[s := Some (tl arr)]"
  "period (state_of (evict limit s c arr)) = period c"
  "samplingTime (state_of (evict limit s c arr)) = samplingTime c"
  "chartMap (state_of (evict limit s c arr)) = chartMap c"
  by (simp_all add: evict_def Let_def split: sum.split)

lemma push_unregistered:
  "js_get (data c) s = None \<Longrightarrow> LineChart_push limit s v c = Thrown TypeError c"
  by (simp add: LineChart_push_def)

lemma push_config [simp]:
  "period (state_of (LineChart_push limit s v c)) = period c"
  "samplingTime (state_of (LineChart_push limit s v c)) = samplingTime c"
  "chartMap (state_of (LineChart_push limit s v c)) = chartMap c"
proof -
  let ?P = "\<lambda>c'. period c' = period c \<and> samplingTime c' = samplingTime c \<and> chartMap c' = chartMap c"
  have "?P (state_of (LineChart_push limit s v c))"
  proof (cases "js_get (data c) s")
    case None
    then show ?thesis by (simp add: push_unregistered)
  next
    case (Some old)
    let ?c1 = "c\<lparr>data := (data c)[s := Some (old @ [v])]\<rparr>"
    let ?r = "if js_le (getAmountOfValues ?c1) (Fin (of_nat (length (old @ [v]))))
              then evict limit s ?c1 (old @ [v]) else Done ?c1"
    have "?P (state_of ?r)"
      by simp
    then show ?thesis
      using Some by (cases ?r) (simp_all add: LineChart_push_def Let_def)
  qed
  then show "period (state_of (LineChart_push limit s v c)) = period c"
    "samplingTime (state_of (LineChart_push limit s v c)) = samplingTime c"
    "chartMap (state_of (LineChart_push limit s v c)) = chartMap c"
    by simp_all
qed

lemma push_capacity [simp]:
  "getAmountOfValues (state_of (LineChart_push limit s v c)) = getAmountOfValues c"
  by (rule getAmountOfValues_cong) simp_all

lemma push_data:
  assumes "js_get (data c) s = Some old"
  shows "data (state_of (LineChart_push limit s v c)) =
         (data c)[s := Some (if js_le (getAmountOfValues c) (Fin (of_nat (length old + 1)))
                             then tl (old @ [v]) else old @ [v])]"
proof -
  let ?c1 = "c\<lparr>data := (data c)[s := Some (old @ [v])]\<rparr>"
  let ?r = "if js_le (getAmountOfValues ?c1) (Fin (of_nat (length (old @ [v]))))
            then evict limit s ?c1 (old @ [v]) else Done ?c1"
  have cap: "getAmountOfValues ?c1 = getAmountOfValues c"
    by (rule getAmountOfValues_cong) simp_all
  have "data (state_of ?r) =
        (data c)[s := Some (if js_le (getAmountOfValues c) (Fin (of_nat (length old + 1)))
                            then tl (old @ [v]) else old @ [v])]"
    by (simp add: cap)
  then show ?thesis
    using assms by (cases ?r) (simp_all add: LineChart_push_def Let_def)
qed

lemma push_data_unregistered:
  "js_get (data c) s = None \<Longrightarrow> data (state_of (LineChart_push limit s v c)) = data c"
  by (simp add: push_unregistered)

lemma push_other:
  "t \<noteq> s \<Longrightarrow> js_get (data (state_of (LineChart_push limit s v c))) t = js_get (data c) t"
  by (cases "js_get (data c) s") (simp_all add: push_data push_data_unregistered js_get_update)

lemma push_evicting:
  assumes "js_get (data c) s = Some buf"
    and "js_le (getAmountOfValues c) (Fin (of_nat (length buf + 1)))"
  shows "js_get (data (state_of (LineChart_push limit s v c))) s = Some (tl (buf @ [v]))"
  using assms js_get_Some_length [OF assms(1)] by (simp add: push_data js_get_def)

text \<open>
  A push to a registered series returns unless \<open>getMaxValueFromData\<close> throws, which needs
  a live buffer longer than the engine's bound.
\<close>

lemma evict_returns:
  "within_limit limit ((data c)[s := Some (tl arr)]) \<Longrightarrow> \<exists>c'. evict limit s c arr = Done c'"
  using getMax_returns [of limit "c\<lparr>data := (data c)[s := Some (tl arr)]\<rparr>"]
  by (auto simp: evict_def Let_def)

lemma push_returns:
  assumes "js_get (data c) s = Some old"
    and "within_limit limit ((data c)[s := Some (tl (old @ [v]))])"
  shows "LineChart_push limit s v c = Done (state_of (LineChart_push limit s v c))"
proof -
  let ?c1 = "c\<lparr>data := (data c)[s := Some (old @ [v])]\<rparr>"
  let ?r = "if js_le (getAmountOfValues ?c1) (Fin (of_nat (length (old @ [v]))))
            then evict limit s ?c1 (old @ [v]) else Done ?c1"
  have "\<exists>c'. ?r = Done c'"
    using evict_returns [of limit ?c1 s "old @ [v]"] assms(2) by simp
  then obtain c' where "?r = Done c'" ..
  then show ?thesis
    using assms(1) by (simp add: LineChart_push_def Let_def)
qed

subsection \<open>Evaluating a concrete chart\<close>

lemma replicate_numeral_unfold: "replicate (numeral k) x = x # replicate (pred_numeral k) x"
  by (simp add: numeral_eq_Suc)

lemmas chart_eval =
  LineChart_init_def setSamplingTime_def getSamplingTime_def getAmountOfValues_def js_div_def
  LineChart_addDataType_def LineChart_push_def LineChart_removeDataType_def changePeriod_def
  evict_def getMaxValueFromData_def Math_max_def js_max2_def rescaleAxis_def
  js_get_def js_set_def js_delete_def js_splice_def Let_def

subsection \<open>NumberChart\<close>

text \<open>
  C8. \<open>NumberChart.push(lineId, v)\<close> sets the displayed text to \<open>v\<close>, and the resulting
  state does not depend on the identifier.
\<close>

theorem NumberChart_push_ignores_lineId:
  "shown (NumberChart_push a v c) = v \<and> NumberChart_push a v c = NumberChart_push b v c"
  by (simp add: NumberChart_push_def)

subsection \<open>Removing an identifier that was never added\<close>

lemma indexOf_absent: "x \<notin> set xs \<Longrightarrow> indexOf xs x = - 1"
  by (induction xs) (auto simp: Let_def)

lemma js_splice_minus_one: "js_splice (ys @ [y]) (- 1) 1 = ys"
  by (simp add: js_splice_def Let_def)

lemma js_splice_absent: "x \<notin> set (ys @ [y]) \<Longrightarrow> js_splice (ys @ [y]) (indexOf (ys @ [y]) x) 1 = ys"
  using indexOf_absent [of x "ys @ [y]"] js_splice_minus_one [of ys y] by simp

lemma removeDataType_fields [simp]:
  "data (state_of (LineChart_removeDataType limit s c)) = js_delete (data c) s"
  "chartMap (state_of (LineChart_removeDataType limit s c)) =
     js_splice (chartMap c) (indexOf (chartMap c) s) 1"
  "period (state_of (LineChart_removeDataType limit s c)) = period c"
  "samplingTime (state_of (LineChart_removeDataType limit s c)) = samplingTime c"
  by (simp_all add: LineChart_removeDataType_def Let_def split: sum.split)

text \<open>
  C9. When \<open>removeDataType\<close> is called, on either chart, with an identifier that is not in
  \<open>chartMap\<close>, \<open>indexOf\<close> gives \<open>-1\<close> and \<open>splice(-1, 1)\<close> removes the last element of
  \<open>chartMap\<close>, the identifier added most recently, so the call is not a no-op; the
  identifiers before it stay, in their order. On \<open>LineChart\<close> this is the state the call
  leaves whether it returns or \<open>getMaxValueFromData\<close> throws afterwards.
\<close>

theorem removeDataType_unknown_drops_latest:
  "(k \<notin> set (earlier @ [latest]) \<and> nc_chartMap n = earlier @ [latest] \<longrightarrow>
      nc_chartMap (NumberChart_removeDataType k n) = earlier
      \<and> NumberChart_removeDataType k n \<noteq> n) \<and>
   (k \<notin> set (earlier @ [latest]) \<and> chartMap c = earlier @ [latest] \<longrightarrow>
      chartMap (state_of (LineChart_removeDataType limit k c)) = earlier
      \<and> state_of (LineChart_removeDataType limit k c) \<noteq> c)"
proof (intro conjI impI)
  assume a: "k \<notin> set (earlier @ [latest]) \<and> nc_chartMap n = earlier @ [latest]"
  then show "nc_chartMap (NumberChart_removeDataType k n) = earlier"
    using js_splice_absent [of k earlier latest] by (simp add: NumberChart_removeDataType_def)
  with a have "nc_chartMap (NumberChart_removeDataType k n) \<noteq> nc_chartMap n"
    by simp
  then show "NumberChart_removeDataType k n \<noteq> n"
    by auto
next
  assume a: "k \<notin> set (earlier @ [latest]) \<and> chartMap c = earlier @ [latest]"
  then show "chartMap (state_of (LineChart_removeDataType limit k c)) = earlier"
    using js_splice_absent [of k earlier latest] by simp
  with a have "chartMap (state_of (LineChart_removeDataType limit k c)) \<noteq> chartMap c"
    by simp
  then show "state_of (LineChart_removeDataType limit k c) \<noteq> c"
    by (rule contrapos_nn) (erule arg_cong)
qed

theorem removeDataType_unknown_drops_latest_witness:
  "(3::nat) \<notin> set ([1] @ [2])
   \<and> nc_chartMap (NumberChart_addDataType 2 (NumberChart_addDataType 1 NumberChart_init)) = [1] @ [2]
   \<and> nc_chartMap (NumberChart_removeDataType 3
        (NumberChart_addDataType 2 (NumberChart_addDataType 1 NumberChart_init))) = [1]
   \<and> chartMap (run 125000 [AddDataType 1, AddDataType 2] LineChart_init) = [1] @ [2]
   \<and> chartMap (state_of (LineChart_removeDataType 125000 3
        (run 125000 [AddDataType 1, AddDataType 2] LineChart_init))) = [1]"
proof -
  have k: "(3::nat) \<notin> set ([1] @ [2])" by simp
  have n: "nc_chartMap (NumberChart_addDataType 2 (NumberChart_addDataType 1 NumberChart_init)) = [1] @ [2]"
    by (simp add: NumberChart_addDataType_def NumberChart_init_def)
  have c: "chartMap (run 125000 [AddDataType 1, AddDataType 2] LineChart_init) = [1] @ [2]"
    by (simp add: chart_eval)
  from k n c removeDataType_unknown_drops_latest [of 3 "[1]" 2
      "NumberChart_addDataType 2 (NumberChart_addDataType 1 NumberChart_init)"
      "run 125000 [AddDataType 1, AddDataType 2] LineChart_init" 125000]
  show ?thesis by blast
qed

subsection \<open>addDataType\<close>

lemma init_capacity: "getAmountOfValues LineChart_init = Fin 600"
  by (simp add: getAmountOfValues_def getSamplingTime_def LineChart_init_def js_div_def)

text \<open>
  C2 as stated fails for the chart as constructed: the capacity is 600 and the new
  buffer has 599 zeros.
\<close>

theorem addDataType_counterexample:
  "getAmountOfValues LineChart_init = Fin 600
   \<and> js_get (data (state_of (LineChart_addDataType 0 LineChart_init))) 0 = Some (replicate 599 (Fin 0))
   \<and> length (replicate 599 (Fin 0)) \<noteq> 600"
  by (simp add: init_capacity LineChart_addDataType_def Let_def js_get_js_set)

text \<open>
  C2, amended. For every series identifier \<open>s\<close>, when the capacity \<open>n\<close> is a number with
  \<open>n - 1\<close> a valid array length, \<open>addDataType(s)\<close> returns and leaves for \<open>s\<close> a buffer of
  \<open>n - 1\<close> zeros: one less than the capacity.
\<close>

theorem addDataType_allocates_capacity_minus_one:
  assumes "getAmountOfValues c = Fin n" and "is_array_length (Fin (n - 1))"
  shows "LineChart_addDataType s c = Done (state_of (LineChart_addDataType s c))
         \<and> js_get (data (state_of (LineChart_addDataType s c))) s = Some (replicate (nat \<lfloor>n - 1\<rfloor>) (Fin 0))
         \<and> rat_of_nat (length (replicate (nat \<lfloor>n - 1\<rfloor>) (Fin 0))) = n - 1"
proof -
  have "rat_of_nat (nat \<lfloor>n - 1\<rfloor>) = n - 1"
    using assms(2) by simp
  with assms show ?thesis
    by (simp add: LineChart_addDataType_def Let_def js_get_js_set)
qed

theorem addDataType_allocates_capacity_minus_one_witness:
  "getAmountOfValues LineChart_init = Fin 600 \<and> is_array_length (Fin (600 - 1))
   \<and> LineChart_addDataType 4 LineChart_init = Done (state_of (LineChart_addDataType 4 LineChart_init))
   \<and> js_get (data (state_of (LineChart_addDataType 4 LineChart_init))) 4 = Some (replicate 599 (Fin 0))"
proof -
  have a: "is_array_length (Fin (600 - 1))" by simp
  from a init_capacity addDataType_allocates_capacity_minus_one [OF init_capacity a, of 4]
  show ?thesis by simp
qed

subsection \<open>Pushing into a full window\<close>

lemma run_pushes_evicting:
  assumes "js_get (data c) s = Some buf"
    and "js_le (getAmountOfValues c) (Fin (of_nat (length buf + 1)))"
  shows "js_get (data (run limit (map (Push s) vs) c)) s = Some (drop (length vs) (buf @ vs))"
  using assms
proof (induction vs arbitrary: c buf)
  case Nil
  then show ?case by simp
next
  case (Cons v vs)
  let ?c' = "state_of (LineChart_push limit s v c)"
  have get: "js_get (data ?c') s = Some (tl (buf @ [v]))"
    using Cons.prems by (rule push_evicting)
  have "length (tl (buf @ [v])) = length buf"
    by simp
  then have cap: "js_le (getAmountOfValues ?c') (Fin (of_nat (length (tl (buf @ [v])) + 1)))"
    using Cons.prems(2) by (simp only: push_capacity)
  have "js_get (data (run limit (map (Push s) vs) ?c')) s =
        Some (drop (length vs) (tl (buf @ [v]) @ vs))"
    using get cap by (rule Cons.IH)
  then have "js_get (data (run limit (map (Push s) (v # vs)) c)) s =
        Some (drop (length vs) (tl (buf @ [v]) @ vs))"
    by simp
  moreover have "tl (buf @ [v]) @ vs = tl (buf @ v # vs)"
    by (cases buf) simp_all
  moreover have "drop (length (v # vs)) (buf @ v # vs) = drop (length vs) (tl (buf @ v # vs))"
    by (simp only: length_Cons drop_Suc)
  ultimately show ?case
    by (simp only:)
qed

lemma run_pushes_capacity:
  "list_all is_push cs \<Longrightarrow> getAmountOfValues (run limit cs c) = getAmountOfValues c"
proof (induction cs arbitrary: c)
  case Nil
  show ?case by simp
next
  case (Cons x cs)
  then show ?case by (cases x) simp_all
qed

lemma is_push_map [simp]: "list_all is_push (map (Push s) vs)"
  by (induction vs) simp_all

lemma fresh_series:
  "js_get (data (state_of (LineChart_addDataType s LineChart_init))) s = Some (replicate 599 (Fin 0))"
  "getAmountOfValues (state_of (LineChart_addDataType s LineChart_init)) = Fin 600"
  by (simp_all add: LineChart_addDataType_def init_capacity Let_def js_get_js_set
      getAmountOfValues_def getSamplingTime_def LineChart_init_def js_div_def)

lemma pushes_after_add:
  "js_get (data (run limit (map (Push s) vs) (state_of (LineChart_addDataType s LineChart_init)))) s =
   Some (drop (length vs) (replicate 599 (Fin 0) @ vs))"
  by (rule run_pushes_evicting) (simp_all add: fresh_series)

text \<open>
  C1 as stated fails: after 601 pushes of 1, 2, ..., 601 into a freshly added series the
  buffer holds 3, ..., 601, which are 599 values and not 600.
\<close>

theorem push_601_counterexample:
  "length increasing_601 = 601 \<and> sorted_wrt js_less increasing_601
   \<and> js_get (data (run 125000 (map (Push 0) increasing_601)
        (state_of (LineChart_addDataType 0 LineChart_init)))) 0 =
       Some (map (\<lambda>n. Fin (rat_of_nat n)) [3..<602])
   \<and> length (map (\<lambda>n. Fin (rat_of_nat n)) [3..<602]) \<noteq> 600"
proof -
  have len: "length increasing_601 = 601"
    by (simp add: increasing_601_def)
  have "sorted_wrt (\<lambda>x y. js_less (Fin (rat_of_nat x)) (Fin (rat_of_nat y))) [1..<602]"
    by (simp only: js_less.simps of_nat_less_iff sorted_wrt_upt)
  then have inc: "sorted_wrt js_less increasing_601"
    unfolding increasing_601_def by (simp only: sorted_wrt_map)
  have "drop 2 [1..<602::nat] = [1 + 2..<602]"
    by (simp only: drop_upt)
  also have "(1::nat) + 2 = 3"
    by simp
  finally have "drop 2 increasing_601 = map (\<lambda>n. Fin (rat_of_nat n)) [3..<602]"
    unfolding increasing_601_def by (simp only: drop_map)
  then have "drop 601 (replicate 599 (Fin 0) @ increasing_601) = map (\<lambda>n. Fin (rat_of_nat n)) [3..<602]"
    by simp
  then have "js_get (data (run 125000 (map (Push 0) increasing_601)
        (state_of (LineChart_addDataType 0 LineChart_init)))) 0 =
        Some (map (\<lambda>n. Fin (rat_of_nat n)) [3..<602])"
    using pushes_after_add [of 125000 0 increasing_601] len by simp
  with len inc show ?thesis by simp
qed

text \<open>
  C1, amended. With period 6 s and sampling time 10 ms (capacity 600), pushing 601
  values into a freshly added series leaves its buffer at length 599, holding exactly
  the last 599 pushed values in order.
\<close>

theorem push_601_keeps_last_599:
  assumes "length vs = 601"
  shows "getAmountOfValues (run limit (map (Push s) vs) (state_of (LineChart_addDataType s LineChart_init))) = Fin 600
         \<and> js_get (data (run limit (map (Push s) vs) (state_of (LineChart_addDataType s LineChart_init)))) s
             = Some (drop 2 vs)
         \<and> length (drop 2 vs) = 599"
proof -
  have "drop (length vs) (replicate 599 (Fin 0) @ vs) = drop 2 vs"
    using assms by simp
  then have "js_get (data (run limit (map (Push s) vs) (state_of (LineChart_addDataType s LineChart_init)))) s
             = Some (drop 2 vs)"
    using pushes_after_add [of limit s vs] by simp
  moreover have "getAmountOfValues (run limit (map (Push s) vs) (state_of (LineChart_addDataType s LineChart_init))) = Fin 600"
    by (simp add: run_pushes_capacity fresh_series)
  ultimately show ?thesis
    using assms by simp
qed

theorem push_601_keeps_last_599_witness:
  "length increasing_601 = 601
   \<and> js_get (data (run 125000 (map (Push 7) increasing_601)
        (state_of (LineChart_addDataType 7 LineChart_init)))) 7 = Some (drop 2 increasing_601)
   \<and> length (drop 2 increasing_601) = 599"
proof -
  have len: "length increasing_601 = 601"
    by (simp add: increasing_601_def)
  from len push_601_keeps_last_599 [OF len, of 125000 7] show ?thesis
    by blast
qed

subsection \<open>The window of the constructor's configuration\<close>

lemma default_window_capacity: "default_window c \<Longrightarrow> getAmountOfValues c = Fin 600"
  by (simp add: default_window_def getAmountOfValues_def getSamplingTime_def js_div_def)

lemma init_default_window: "default_window LineChart_init"
  by (simp add: default_window_def LineChart_init_def js_get_def)

lemma addDataType_default_window:
  assumes "default_window c"
  shows "default_window (state_of (LineChart_addDataType s c))"
  using assms default_window_capacity [OF assms]
  by (auto simp: default_window_def LineChart_addDataType_def Let_def js_get_js_set
      split: if_splits)

lemma push_default_window:
  assumes "default_window c"
  shows "default_window (state_of (LineChart_push limit s v c))"
proof (cases "js_get (data c) s")
  case None
  with assms show ?thesis by (simp add: push_unregistered)
next
  case (Some buf)
  then have len: "length buf = 599"
    using assms by (simp add: default_window_def)
  then have "js_le (getAmountOfValues c) (Fin (of_nat (length buf + 1)))"
    using default_window_capacity [OF assms] by simp
  then have "js_get (data (state_of (LineChart_push limit s v c))) s = Some (tl (buf @ [v]))"
    using Some by (simp add: push_evicting)
  moreover have "length (tl (buf @ [v])) = 599"
    using len by simp
  ultimately have "js_get (data (state_of (LineChart_push limit s v c))) k = Some b \<Longrightarrow> length b = 599"
    for k b
    using assms push_other [of k s limit v c] by (cases "k = s") (auto simp: default_window_def)
  with assms show ?thesis
    by (simp add: default_window_def)
qed

lemma removeDataType_default_window:
  "default_window c \<Longrightarrow> default_window (state_of (LineChart_removeDataType limit s c))"
  by (auto simp: default_window_def js_get_js_delete split: if_splits)

lemma run_default_window:
  "list_all keeps_config cs \<Longrightarrow> default_window c \<Longrightarrow> default_window (run limit cs c)"
proof (induction cs arbitrary: c)
  case Nil
  then show ?case by simp
next
  case (Cons x cs)
  from Cons.prems have "default_window (state_of (exec limit x c))"
    by (cases x)
      (simp_all add: addDataType_default_window push_default_window removeDataType_default_window)
  with Cons show ?case by simp
qed

text \<open>
  C3. Let \<open>period\<close> and \<open>samplingTime\<close> keep the constructor's values, so that the capacity
  is 600. In every state reached from the constructor by \<open>addDataType\<close>, \<open>push\<close> and
  \<open>removeDataType\<close> calls, hence after each push, the buffer of every registered series
  is no longer than the capacity. A further push evicts the oldest sample (the head of
  the buffer) and appends the new one; it returns on every engine that accepts the 599
  samples of a buffer as arguments of \<open>Math.max\<close>.
\<close>

theorem buffer_never_exceeds_capacity:
  assumes "list_all keeps_config cs"
    and "js_get (data (run limit cs LineChart_init)) s = Some buf"
  shows "getAmountOfValues (run limit cs LineChart_init) = Fin 600
         \<and> js_le (Fin (of_nat (length buf))) (getAmountOfValues (run limit cs LineChart_init))
         \<and> buf \<noteq> []
         \<and> (599 \<le> limit \<longrightarrow>
              LineChart_push limit s v (run limit cs LineChart_init) =
                Done (state_of (LineChart_push limit s v (run limit cs LineChart_init))))
         \<and> js_get (data (state_of (LineChart_push limit s v (run limit cs LineChart_init)))) s =
             Some (tl buf @ [v])"
proof -
  let ?c = "run limit cs LineChart_init"
  have win: "default_window ?c"
    using assms(1) init_default_window by (rule run_default_window)
  then have cap: "getAmountOfValues ?c = Fin 600"
    by (rule default_window_capacity)
  have len: "length buf = 599"
    using win assms(2) by (simp add: default_window_def)
  then have ne: "buf \<noteq> []"
    by auto
  have ev: "js_le (getAmountOfValues ?c) (Fin (of_nat (length buf + 1)))"
    using cap len by simp
  then have after: "js_get (data (state_of (LineChart_push limit s v ?c))) s = Some (tl (buf @ [v]))"
    using assms(2) by (simp add: push_evicting)
  have "LineChart_push limit s v ?c = Done (state_of (LineChart_push limit s v ?c))"
    if "599 \<le> limit"
  proof (rule push_returns [OF assms(2)])
    have "default_window (state_of (LineChart_push limit s v ?c))"
      using win by (rule push_default_window)
    then have "within_limit limit (data (state_of (LineChart_push limit s v ?c)))"
      using that unfolding within_limit_iff default_window_def by auto
    then show "within_limit limit ((data ?c)[s := Some (tl (buf @ [v]))])"
      using ev by (simp add: push_data [OF assms(2)])
  qed
  with after cap len ne show ?thesis
    by simp
qed

theorem buffer_never_exceeds_capacity_witness:
  "list_all keeps_config [AddDataType 2, Push 2 (Fin 8)]
   \<and> js_get (data (run 125000 [AddDataType 2, Push 2 (Fin 8)] LineChart_init)) 2 =
       Some (drop 1 (replicate 599 (Fin 0) @ [Fin 8]))
   \<and> (599::nat) \<le> 125000
   \<and> js_le (Fin (of_nat (length (drop 1 (replicate 599 (Fin 0) @ [Fin 8])))))
       (getAmountOfValues (run 125000 [AddDataType 2, Push 2 (Fin 8)] LineChart_init))
   \<and> LineChart_push 125000 2 (Fin 9) (run 125000 [AddDataType 2, Push 2 (Fin 8)] LineChart_init) =
       Done (state_of (LineChart_push 125000 2 (Fin 9)
         (run 125000 [AddDataType 2, Push 2 (Fin 8)] LineChart_init)))
   \<and> js_get (data (state_of (LineChart_push 125000 2 (Fin 9)
         (run 125000 [AddDataType 2, Push 2 (Fin 8)] LineChart_init)))) 2 =
       Some (tl (drop 1 (replicate 599 (Fin 0) @ [Fin 8])) @ [Fin 9])"
proof -
  have k: "list_all keeps_config [AddDataType 2, Push 2 (Fin 8)]"
    by simp
  have b: "js_get (data (run 125000 [AddDataType 2, Push 2 (Fin 8)] LineChart_init)) 2 =
       Some (drop 1 (replicate 599 (Fin 0) @ [Fin 8]))"
    using pushes_after_add [of 125000 2 "[Fin 8]"] by simp
  have l: "(599::nat) \<le> 125000"
    by simp
  from k b l buffer_never_exceeds_capacity [OF k b, of "Fin 9"] show ?thesis
    by blast
qed

subsection \<open>A buffer longer than the capacity\<close>

lemma push_oversized:
  assumes "js_get (data c) s = Some buf"
    and "js_less (getAmountOfValues c) (Fin (of_nat (length buf)))"
  shows "\<exists>buf'. js_get (data (state_of (LineChart_push limit t v c))) s = Some buf'
           \<and> length buf' = length buf"
proof (cases "t = s")
  case True
  have "js_le (getAmountOfValues c) (Fin (of_nat (length buf + 1)))"
    using assms(2) by (rule js_less_le_Fin) simp
  then have "js_get (data (state_of (LineChart_push limit s v c))) s = Some (tl (buf @ [v]))"
    using assms(1) by (simp add: push_evicting)
  with True show ?thesis by simp
next
  case False
  then show ?thesis
    using assms(1) push_other [of s t limit v c] by simp
qed

lemma run_pushes_oversized:
  assumes "list_all is_push cs"
    and "js_get (data c) s = Some buf"
    and "js_less (getAmountOfValues c) (Fin (of_nat (length buf)))"
  shows "\<exists>buf'. js_get (data (run limit cs c)) s = Some buf' \<and> length buf' = length buf"
  using assms
proof (induction cs arbitrary: c buf)
  case Nil
  then show ?case by simp
next
  case (Cons x cs)
  from Cons.prems(1) obtain t v where x: "x = Push t v"
    by (cases x) simp_all
  let ?c' = "state_of (LineChart_push limit t v c)"
  from push_oversized [OF Cons.prems(2,3), of limit t v]
  obtain buf' where b: "js_get (data ?c') s = Some buf'" "length buf' = length buf"
    by blast
  have "js_less (getAmountOfValues ?c') (Fin (of_nat (length buf')))"
    using Cons.prems(3) b(2) by simp
  with Cons.IH [of ?c' buf'] Cons.prems(1) b x show ?case
    by simp
qed

text \<open>
  C10. \<open>setSamplingTime\<close> changes no buffer, and a push leaves the buffer of its series
  with the new sample appended and at most the oldest one evicted. Once a buffer is
  longer than the capacity, every later sequence of pushes (to any series, registered
  or not, returning or throwing) leaves its length unchanged, so it stays above the
  capacity.
\<close>

theorem oversized_buffer_stays_oversized:
  "data (setSamplingTime t c) = data c
   \<and> (js_get (data c) s = Some buf \<longrightarrow>
        js_get (data (state_of (LineChart_push limit s v c))) s = Some (buf @ [v])
        \<or> js_get (data (state_of (LineChart_push limit s v c))) s = Some (tl (buf @ [v])))
   \<and> (list_all is_push cs \<and> js_get (data c) s = Some buf
        \<and> js_less (getAmountOfValues c) (Fin (of_nat (length buf))) \<longrightarrow>
        (\<exists>buf'. js_get (data (run limit cs c)) s = Some buf' \<and> length buf' = length buf
           \<and> js_less (getAmountOfValues (run limit cs c)) (Fin (of_nat (length buf')))))"
proof (intro conjI impI)
  show "data (setSamplingTime t c) = data c"
    by (simp add: setSamplingTime_def)
next
  assume b: "js_get (data c) s = Some buf"
  then have "s < length (data c)"
    by (rule js_get_Some_length)
  then show "js_get (data (state_of (LineChart_push limit s v c))) s = Some (buf @ [v])
        \<or> js_get (data (state_of (LineChart_push limit s v c))) s = Some (tl (buf @ [v]))"
    using b by (simp add: push_data js_get_def)
next
  assume a: "list_all is_push cs \<and> js_get (data c) s = Some buf
        \<and> js_less (getAmountOfValues c) (Fin (of_nat (length buf)))"
  then obtain buf' where "js_get (data (run limit cs c)) s = Some buf'" "length buf' = length buf"
    using run_pushes_oversized [of cs c s buf limit] by blast
  moreover have "getAmountOfValues (run limit cs c) = getAmountOfValues c"
    using a by (simp add: run_pushes_capacity)
  ultimately show "\<exists>buf'. js_get (data (run limit cs c)) s = Some buf' \<and> length buf' = length buf
           \<and> js_less (getAmountOfValues (run limit cs c)) (Fin (of_nat (length buf')))"
    using a by simp
qed

theorem oversized_buffer_stays_oversized_witness:
  "list_all is_push [Push 0 (Fin 9), Push 1 (Fin 4), Push 0 (Fin 2)]
   \<and> js_get (data oversized_chart) 0 = Some [Fin 0, Fin 0, Fin 0, Fin 0, Fin 0]
   \<and> js_less (getAmountOfValues oversized_chart)
       (Fin (of_nat (length [Fin 0, Fin 0, Fin 0, Fin 0, Fin 0])))
   \<and> (\<exists>buf'. js_get (data (run 125000 [Push 0 (Fin 9), Push 1 (Fin 4), Push 0 (Fin 2)]
           oversized_chart)) 0 = Some buf'
         \<and> length buf' = length [Fin 0, Fin 0, Fin 0, Fin 0, Fin 0]
         \<and> js_less (getAmountOfValues (run 125000 [Push 0 (Fin 9), Push 1 (Fin 4), Push 0 (Fin 2)]
               oversized_chart))
             (Fin (of_nat (length buf'))))
   \<and> js_get (data (run 125000 [Push 0 (Fin 9), Push 1 (Fin 4), Push 0 (Fin 2)] oversized_chart)) 0 =
       Some [Fin 0, Fin 0, Fin 0, Fin 9, Fin 2]"
proof -
  have p: "list_all is_push [Push 0 (Fin 9), Push 1 (Fin 4), Push 0 (Fin 2)]"
    by simp
  have b: "js_get (data oversized_chart) 0 = Some [Fin 0, Fin 0, Fin 0, Fin 0, Fin 0]"
    unfolding oversized_chart_def by (simp add: chart_eval replicate_numeral_unfold)
  have l: "js_less (getAmountOfValues oversized_chart)
       (Fin (of_nat (length [Fin 0, Fin 0, Fin 0, Fin 0, Fin 0])))"
    unfolding oversized_chart_def by (simp add: chart_eval replicate_numeral_unfold)
  have r: "js_get (data (run 125000 [Push 0 (Fin 9), Push 1 (Fin 4), Push 0 (Fin 2)] oversized_chart)) 0 =
       Some [Fin 0, Fin 0, Fin 0, Fin 9, Fin 2]"
    unfolding oversized_chart_def by (simp add: chart_eval replicate_numeral_unfold)
  from p b l r oversized_buffer_stays_oversized
    [of 1 oversized_chart 0 "[Fin 0, Fin 0, Fin 0, Fin 0, Fin 0]" 125000 "Fin 1"
       "[Push 0 (Fin 9), Push 1 (Fin 4), Push 0 (Fin 2)]"]
  show ?thesis by blast
qed

subsection \<open>getMaxValueFromData\<close>

text \<open>
  The floor at 0. The loop starts from \<open>maxValue = 0\<close> (line 410), so the result is never
  below 0. This agrees with the rest of the chart: \<open>maxDisplayedValue\<close> starts at 0 (line
  181), \<open>push\<close> only ever raises it (line 328), and the y-axis runs from it down to 0
  (\<open>domain([maxDisplayedValue, 0])\<close>, lines 268 and 431). The result is only ever
  assigned to \<open>maxDisplayedValue\<close>, "the upper bounding of the y-axis", and the function is
  documented to return "the max value currently displayed in the chart". The floor is
  therefore taken as the design, and the statements below say "the largest of 0 and
  all samples". A buffer with a \<open>NaN\<close> being passed over, and the RangeError on a long
  buffer, are not: the statements below leave those states out.
\<close>

text \<open>
  C6 as stated, "the maximum sample value over all samples in all live buffers", fails:
  with the samples \<open>-1, -1\<close> the result is 0; with the samples \<open>5, NaN\<close> the result is 0;
  with a buffer of 129999 samples and an engine that accepts 125000 arguments the call
  throws a RangeError.
\<close>

theorem getMaxValueFromData_counterexample:
  "data all_negative_chart = [Some [Fin (- 1), Fin (- 1)]]
   \<and> getMaxValueFromData 125000 all_negative_chart = Inr (Fin 0)
   \<and> data five_and_nan_chart = [Some [Fin 5, NaN]]
   \<and> getMaxValueFromData 125000 five_and_nan_chart = Inr (Fin 0)
   \<and> data long_chart = [Some (replicate 129999 (Fin 0))]
   \<and> getMaxValueFromData 125000 long_chart = Inl RangeError"
proof -
  have "data all_negative_chart = [Some [Fin (- 1), Fin (- 1)]]"
    "getMaxValueFromData 125000 all_negative_chart = Inr (Fin 0)"
    unfolding all_negative_chart_def by (simp_all add: chart_eval replicate_numeral_unfold)
  moreover have "data five_and_nan_chart = [Some [Fin 5, NaN]]"
    "getMaxValueFromData 125000 five_and_nan_chart = Inr (Fin 0)"
    unfolding five_and_nan_chart_def by (simp_all add: chart_eval replicate_numeral_unfold)
  moreover have "data long_chart = [Some (replicate 129999 (Fin 0))]"
    "getMaxValueFromData 125000 long_chart = Inl RangeError"
    unfolding long_chart_def by (simp_all add: chart_eval)
  ultimately show ?thesis
    by simp
qed

text \<open>
  C6, amended. For every LineChart state in which no sample is \<open>NaN\<close> and no live buffer
  has more samples than the engine accepts as arguments, \<open>getMaxValueFromData()\<close> returns
  the largest of 0 and all samples of all live buffers: the maximum sample as soon as
  one sample is not negative. It returns 0 when there is no live buffer.
\<close>

theorem getMaxValueFromData_is_floored_max:
  "(NaN \<notin> samples (data c) \<and> within_limit limit (data c) \<longrightarrow>
      (\<exists>r. getMaxValueFromData limit c = Inr r \<and> floored_max (samples (data c)) r
         \<and> ((\<exists>x \<in> samples (data c). js_le (Fin 0) x) \<longrightarrow> greatest (samples (data c)) r)))
   \<and> ((\<forall>i. js_get (data c) i = None) \<longrightarrow> getMaxValueFromData limit c = Inr (Fin 0))"
proof (intro conjI impI)
  assume "NaN \<notin> samples (data c) \<and> within_limit limit (data c)"
  then obtain r where r: "getMaxValueFromData limit c = Inr r" "floored_max (samples (data c)) r"
    using getMax_floored [of c limit] by blast
  have "greatest (samples (data c)) r" if "\<exists>x \<in> samples (data c). js_le (Fin 0) x"
    using that r(2) by (blast intro: floored_max_greatest)
  with r show "\<exists>r. getMaxValueFromData limit c = Inr r \<and> floored_max (samples (data c)) r
         \<and> ((\<exists>x \<in> samples (data c). js_le (Fin 0) x) \<longrightarrow> greatest (samples (data c)) r)"
    by blast
next
  assume none: "\<forall>i. js_get (data c) i = None"
  then have empty: "samples (data c) = {}"
    using samples_iff [of _ "data c"] by auto
  have "within_limit limit (data c)"
    using none by (simp add: within_limit_iff)
  with empty obtain r where "getMaxValueFromData limit c = Inr r" "floored_max (samples (data c)) r"
    using getMax_floored [of c limit] by auto
  with empty show "getMaxValueFromData limit c = Inr (Fin 0)"
    by (simp add: floored_max_def)
qed

theorem getMaxValueFromData_is_floored_max_witness:
  "NaN \<notin> samples (data five_and_minus_three)
   \<and> within_limit 125000 (data five_and_minus_three)
   \<and> (\<exists>x \<in> samples (data five_and_minus_three). js_le (Fin 0) x)
   \<and> (\<exists>r. getMaxValueFromData 125000 five_and_minus_three = Inr r
         \<and> floored_max (samples (data five_and_minus_three)) r
         \<and> greatest (samples (data five_and_minus_three)) r)
   \<and> getMaxValueFromData 125000 five_and_minus_three = Inr (Fin 5)
   \<and> (\<forall>i. js_get (data LineChart_init) i = None)
   \<and> getMaxValueFromData 125000 LineChart_init = Inr (Fin 0)"
proof -
  have d: "data five_and_minus_three = [Some [Fin 5], Some [Fin (- 3)]]"
    unfolding five_and_minus_three_def by (simp add: chart_eval replicate_numeral_unfold)
  have n: "NaN \<notin> samples (data five_and_minus_three)"
    and w: "within_limit 125000 (data five_and_minus_three)"
    and h: "\<exists>x \<in> samples (data five_and_minus_three). js_le (Fin 0) x"
    unfolding d by simp_all
  have five: "getMaxValueFromData 125000 five_and_minus_three = Inr (Fin 5)"
    unfolding five_and_minus_three_def by (simp add: chart_eval replicate_numeral_unfold)
  have e: "\<forall>i. js_get (data LineChart_init) i = None"
    by (simp add: LineChart_init_def js_get_def)
  from n w h five e getMaxValueFromData_is_floored_max [of five_and_minus_three 125000]
    getMaxValueFromData_is_floored_max [of LineChart_init 125000]
  show ?thesis by blast
qed

subsection \<open>removeDataType\<close>

text \<open>
  C7 as stated, "the maximum over the remaining buffers", fails: removing the series
  with maximum 5 from the buffers \<open>[5]\<close> and \<open>[-3]\<close> leaves the displayed maximum 0;
  removing series 1 next to the buffer \<open>[NaN, 100]\<close> leaves the displayed maximum 0; and
  with a remaining buffer of 129999 samples the call throws a RangeError after it has
  deleted the buffer.
\<close>

theorem removeDataType_counterexample:
  "data five_and_minus_three = [Some [Fin 5], Some [Fin (- 3)]]
   \<and> LineChart_removeDataType 125000 0 five_and_minus_three =
       Done (five_and_minus_three\<lparr>chartMap := [1], data := [None, Some [Fin (- 3)]],
         maxDisplayedValue := Fin 0\<rparr>)
   \<and> data nan_chart = [Some [NaN, Fin 100], Some [Fin 200, Fin 0]]
   \<and> LineChart_removeDataType 125000 1 nan_chart =
       Done (nan_chart\<lparr>chartMap := [0], data := [Some [NaN, Fin 100], None],
         maxDisplayedValue := Fin 0\<rparr>)
   \<and> data two_long_chart = [Some (replicate 129999 (Fin 0)), Some (replicate 129999 (Fin 0))]
   \<and> LineChart_removeDataType 125000 1 two_long_chart =
       Thrown RangeError (two_long_chart\<lparr>chartMap := [0],
         data := [Some (replicate 129999 (Fin 0)), None]\<rparr>)"
proof -
  have "data five_and_minus_three = [Some [Fin 5], Some [Fin (- 3)]]"
    "LineChart_removeDataType 125000 0 five_and_minus_three =
       Done (five_and_minus_three\<lparr>chartMap := [1], data := [None, Some [Fin (- 3)]],
         maxDisplayedValue := Fin 0\<rparr>)"
    unfolding five_and_minus_three_def by (simp_all add: chart_eval replicate_numeral_unfold)
  moreover have "data nan_chart = [Some [NaN, Fin 100], Some [Fin 200, Fin 0]]"
    "LineChart_removeDataType 125000 1 nan_chart =
       Done (nan_chart\<lparr>chartMap := [0], data := [Some [NaN, Fin 100], None],
         maxDisplayedValue := Fin 0\<rparr>)"
    unfolding nan_chart_def by (simp_all add: chart_eval replicate_numeral_unfold)
  moreover have "data two_long_chart = [Some (replicate 129999 (Fin 0)), Some (replicate 129999 (Fin 0))]"
    "LineChart_removeDataType 125000 1 two_long_chart =
       Thrown RangeError (two_long_chart\<lparr>chartMap := [0],
         data := [Some (replicate 129999 (Fin 0)), None]\<rparr>)"
    unfolding two_long_chart_def by (simp_all add: chart_eval)
  ultimately show ?thesis
    by simp
qed

lemma removeDataType_returns:
  assumes "NaN \<notin> samples (js_delete (data c) s)" and "within_limit limit (js_delete (data c) s)"
  shows "LineChart_removeDataType limit s c = Done (state_of (LineChart_removeDataType limit s c))
         \<and> floored_max (samples (js_delete (data c) s))
             (maxDisplayedValue (state_of (LineChart_removeDataType limit s c)))"
proof -
  let ?c2 = "c\<lparr>chartMap := js_splice (chartMap c) (indexOf (chartMap c) s) 1,
                data := js_delete (data c) s\<rparr>"
  from getMax_floored [of ?c2 limit] assms obtain r where
    "getMaxValueFromData limit ?c2 = Inr r" "floored_max (samples (js_delete (data c) s)) r"
    by auto
  then show ?thesis
    by (simp add: LineChart_removeDataType_def Let_def)
qed

text \<open>
  C7, amended. \<open>removeDataType(s)\<close> deletes the buffer of \<open>s\<close> and keeps the others. When
  no remaining sample is \<open>NaN\<close> and no remaining buffer has more samples than the engine
  accepts as arguments, it returns and sets \<open>maxDisplayedValue\<close> to the largest of 0 and
  all samples of the remaining buffers. With exactly two series whose buffer maxima are
  5 and 3, removing the one with maximum 5 leaves \<open>maxDisplayedValue\<close> equal to 3.
\<close>

theorem removeDataType_recomputes_max:
  "js_get (data (state_of (LineChart_removeDataType limit s c))) s = None
   \<and> (\<forall>k. k \<noteq> s \<longrightarrow>
        js_get (data (state_of (LineChart_removeDataType limit s c))) k = js_get (data c) k)
   \<and> (NaN \<notin> samples (js_delete (data c) s) \<and> within_limit limit (js_delete (data c) s) \<longrightarrow>
        LineChart_removeDataType limit s c = Done (state_of (LineChart_removeDataType limit s c))
        \<and> floored_max (samples (data (state_of (LineChart_removeDataType limit s c))))
            (maxDisplayedValue (state_of (LineChart_removeDataType limit s c))))
   \<and> ((\<forall>k. js_get (data c) k = (if k = s then Some a else if k = t then Some b else None))
        \<and> s \<noteq> t \<and> greatest (set a) (Fin 5) \<and> greatest (set b) (Fin 3) \<and> length b \<le> limit
       \<longrightarrow> LineChart_removeDataType limit s c = Done (state_of (LineChart_removeDataType limit s c))
           \<and> maxDisplayedValue (state_of (LineChart_removeDataType limit s c)) = Fin 3)"
proof (intro conjI allI impI)
  show "js_get (data (state_of (LineChart_removeDataType limit s c))) s = None"
    by (simp add: js_get_js_delete)
next
  fix k assume "k \<noteq> s"
  then show "js_get (data (state_of (LineChart_removeDataType limit s c))) k = js_get (data c) k"
    by (simp add: js_get_js_delete)
next
  assume a: "NaN \<notin> samples (js_delete (data c) s) \<and> within_limit limit (js_delete (data c) s)"
  then show "LineChart_removeDataType limit s c = Done (state_of (LineChart_removeDataType limit s c))"
    using removeDataType_returns [of c s limit] by blast
  from a show "floored_max (samples (data (state_of (LineChart_removeDataType limit s c))))
            (maxDisplayedValue (state_of (LineChart_removeDataType limit s c)))"
    using removeDataType_returns [of c s limit] by simp
next
  assume two: "(\<forall>k. js_get (data c) k = (if k = s then Some a else if k = t then Some b else None))
        \<and> s \<noteq> t \<and> greatest (set a) (Fin 5) \<and> greatest (set b) (Fin 3) \<and> length b \<le> limit"
  let ?m = "maxDisplayedValue (state_of (LineChart_removeDataType limit s c))"
  have rest: "js_get (js_delete (data c) s) k = (if k = t then Some b else None)" for k
    using two by (simp add: js_get_js_delete)
  have smp: "samples (js_delete (data c) s) = set b"
    unfolding set_eq_iff samples_iff rest by simp
  have b: "Fin 3 \<in> set b" "\<forall>x \<in> set b. js_le x (Fin 3)"
    using two by (simp_all add: greatest_def)
  have "NaN \<notin> set b"
    using b(2) js_le_not_NaN by blast
  moreover have "within_limit limit (js_delete (data c) s)"
    unfolding within_limit_iff rest using two by simp
  ultimately have ret: "LineChart_removeDataType limit s c = Done (state_of (LineChart_removeDataType limit s c))"
    and fl: "floored_max (set b) ?m"
    using removeDataType_returns [of c s limit] smp by simp_all
  have ge: "js_le (Fin 3) ?m"
    using fl b(1) by (simp add: floored_max_def)
  then have "?m \<noteq> Fin 0"
    by auto
  then have "?m \<in> set b"
    using fl by (simp add: floored_max_def)
  then have "js_le ?m (Fin 3)"
    using b(2) by blast
  then have "?m = Fin 3"
    using ge by (rule js_le_antisym)
  with ret show "LineChart_removeDataType limit s c = Done (state_of (LineChart_removeDataType limit s c))"
    "?m = Fin 3"
    by simp_all
qed

theorem removeDataType_recomputes_max_witness:
  "(\<forall>k. js_get (data five_and_three) k =
        (if k = 0 then Some [Fin 5] else if k = 1 then Some [Fin 3] else None))
   \<and> (0::nat) \<noteq> 1 \<and> greatest (set [Fin 5]) (Fin 5) \<and> greatest (set [Fin 3]) (Fin 3)
   \<and> length [Fin 3] \<le> (125000::nat)
   \<and> NaN \<notin> samples (js_delete (data five_and_three) 0)
   \<and> within_limit 125000 (js_delete (data five_and_three) 0)
   \<and> js_get (data (state_of (LineChart_removeDataType 125000 0 five_and_three))) 0 = None
   \<and> js_get (data (state_of (LineChart_removeDataType 125000 0 five_and_three))) 1 = Some [Fin 3]
   \<and> LineChart_removeDataType 125000 0 five_and_three =
       Done (state_of (LineChart_removeDataType 125000 0 five_and_three))
   \<and> floored_max (samples (data (state_of (LineChart_removeDataType 125000 0 five_and_three))))
       (maxDisplayedValue (state_of (LineChart_removeDataType 125000 0 five_and_three)))
   \<and> maxDisplayedValue (state_of (LineChart_removeDataType 125000 0 five_and_three)) = Fin 3"
proof -
  have d: "data five_and_three = [Some [Fin 5], Some [Fin 3]]"
    unfolding five_and_three_def by (simp add: chart_eval replicate_numeral_unfold)
  have two: "\<forall>k. js_get (data five_and_three) k =
        (if k = 0 then Some [Fin 5] else if k = 1 then Some [Fin 3] else None)"
    unfolding d by (auto simp: js_get_def nth_Cons')
  have one: "js_get (data five_and_three) 1 = Some [Fin 3]"
    unfolding d by (simp add: js_get_def)
  have g: "greatest (set [Fin 5]) (Fin 5)" "greatest (set [Fin 3]) (Fin 3)"
    "length [Fin 3] \<le> (125000::nat)"
    by (simp_all add: greatest_def)
  have r: "NaN \<notin> samples (js_delete (data five_and_three) 0)"
    "within_limit 125000 (js_delete (data five_and_three) 0)"
    unfolding d by (simp_all add: js_delete_def)
  from two one g r removeDataType_recomputes_max [of 125000 0 five_and_three "[Fin 5]" 1 "[Fin 3]"]
  show ?thesis by auto
qed

subsection \<open>A push that evicts the displayed maximum\<close>

text \<open>
  C5 as stated fails in four ways. In \<open>below_zero_chart\<close> (capacity 3, buffer \<open>[0, -1]\<close>,
  displayed maximum 0) pushing \<open>-1\<close> evicts the 0 and leaves the displayed maximum 0 with
  the samples \<open>-1, -1\<close>. In \<open>nan_chart\<close> pushing 0 to series 1 evicts the displayed maximum
  200 and leaves 0, below the sample 100 that sits next to a \<open>NaN\<close>. In \<open>long_chart\<close>
  pushing 1 evicts a 0, equal to the displayed maximum, and throws a RangeError:
  nothing is recomputed or rescaled. In \<open>single_slot_chart\<close> the buffer is empty, the
  pushed 5 is itself evicted, and the displayed maximum stays 5 with no sample left.
\<close>

theorem eviction_counterexample:
  "getAmountOfValues below_zero_chart = Fin 3
   \<and> data below_zero_chart = [Some [Fin 0, Fin (- 1)]]
   \<and> maxDisplayedValue below_zero_chart = Fin 0
   \<and> data (state_of (LineChart_push 125000 0 (Fin (- 1)) below_zero_chart)) =
       [Some [Fin (- 1), Fin (- 1)]]
   \<and> maxDisplayedValue (state_of (LineChart_push 125000 0 (Fin (- 1)) below_zero_chart)) = Fin 0
   \<and> getAmountOfValues nan_chart = Fin 3
   \<and> data nan_chart = [Some [NaN, Fin 100], Some [Fin 200, Fin 0]]
   \<and> maxDisplayedValue nan_chart = Fin 200
   \<and> data (state_of (LineChart_push 125000 1 (Fin 0) nan_chart)) =
       [Some [NaN, Fin 100], Some [Fin 0, Fin 0]]
   \<and> maxDisplayedValue (state_of (LineChart_push 125000 1 (Fin 0) nan_chart)) = Fin 0
   \<and> getAmountOfValues long_chart = Fin 130000
   \<and> data long_chart = [Some (replicate 129999 (Fin 0))]
   \<and> maxDisplayedValue long_chart = Fin 0
   \<and> LineChart_push 125000 0 (Fin 1) long_chart =
       Thrown RangeError (long_chart\<lparr>data := [Some (replicate 129998 (Fin 0) @ [Fin 1])]\<rparr>)
   \<and> getAmountOfValues single_slot_chart = Fin 1
   \<and> data single_slot_chart = [Some []]
   \<and> maxDisplayedValue single_slot_chart = Fin 5
   \<and> data (state_of (LineChart_push 125000 0 (Fin 5) single_slot_chart)) = [Some []]
   \<and> maxDisplayedValue (state_of (LineChart_push 125000 0 (Fin 5) single_slot_chart)) = Fin 5"
proof -
  have "getAmountOfValues below_zero_chart = Fin 3"
    "data below_zero_chart = [Some [Fin 0, Fin (- 1)]]"
    "maxDisplayedValue below_zero_chart = Fin 0"
    "data (state_of (LineChart_push 125000 0 (Fin (- 1)) below_zero_chart)) =
       [Some [Fin (- 1), Fin (- 1)]]"
    "maxDisplayedValue (state_of (LineChart_push 125000 0 (Fin (- 1)) below_zero_chart)) = Fin 0"
    unfolding below_zero_chart_def by (simp_all add: chart_eval replicate_numeral_unfold)
  moreover have "getAmountOfValues nan_chart = Fin 3"
    "data nan_chart = [Some [NaN, Fin 100], Some [Fin 200, Fin 0]]"
    "maxDisplayedValue nan_chart = Fin 200"
    "data (state_of (LineChart_push 125000 1 (Fin 0) nan_chart)) =
       [Some [NaN, Fin 100], Some [Fin 0, Fin 0]]"
    "maxDisplayedValue (state_of (LineChart_push 125000 1 (Fin 0) nan_chart)) = Fin 0"
    unfolding nan_chart_def by (simp_all add: chart_eval replicate_numeral_unfold)
  moreover have "getAmountOfValues long_chart = Fin 130000"
    "data long_chart = [Some (replicate 129999 (Fin 0))]"
    "maxDisplayedValue long_chart = Fin 0"
    "LineChart_push 125000 0 (Fin 1) long_chart =
       Thrown RangeError (long_chart\<lparr>data := [Some (replicate 129998 (Fin 0) @ [Fin 1])]\<rparr>)"
    unfolding long_chart_def by (simp_all add: chart_eval)
  moreover have "getAmountOfValues single_slot_chart = Fin 1"
    "data single_slot_chart = [Some []]"
    "maxDisplayedValue single_slot_chart = Fin 5"
    "data (state_of (LineChart_push 125000 0 (Fin 5) single_slot_chart)) = [Some []]"
    "maxDisplayedValue (state_of (LineChart_push 125000 0 (Fin 5) single_slot_chart)) = Fin 5"
    unfolding single_slot_chart_def by (simp_all add: chart_eval replicate_numeral_unfold)
  ultimately show ?thesis
    by simp
qed

text \<open>
  C5, amended. For every push that evicts a sample from a buffer that held at least one
  sample before the call, and after which no sample is \<open>NaN\<close> and no live buffer has more
  samples than the engine accepts as arguments: if the evicted sample (the oldest one)
  is at least the displayed maximum before the call, then the call returns, afterwards
  \<open>maxDisplayedValue\<close> is the largest of 0 and all samples of all live buffers, hence the
  true maximum whenever some sample is not negative, and the y-axis has been rescaled,
  once, to that value.
\<close>

theorem eviction_of_max_recomputes:
  assumes "js_get (data c) s = Some old" and "old \<noteq> []"
    and "js_le (getAmountOfValues c) (Fin (of_nat (length old + 1)))"
    and "js_le (maxDisplayedValue c) (hd old)"
    and "NaN \<notin> samples ((data c)[s := Some (tl old @ [v])])"
    and "within_limit limit ((data c)[s := Some (tl old @ [v])])"
  shows "LineChart_push limit s v c = Done (state_of (LineChart_push limit s v c))
         \<and> js_get (data (state_of (LineChart_push limit s v c))) s = Some (tl old @ [v])
         \<and> floored_max (samples (data (state_of (LineChart_push limit s v c))))
             (maxDisplayedValue (state_of (LineChart_push limit s v c)))
         \<and> ((\<exists>x \<in> samples (data (state_of (LineChart_push limit s v c))). js_le (Fin 0) x) \<longrightarrow>
             greatest (samples (data (state_of (LineChart_push limit s v c))))
               (maxDisplayedValue (state_of (LineChart_push limit s v c))))
         \<and> rescales (state_of (LineChart_push limit s v c)) = rescales c + 1
         \<and> yDomain (state_of (LineChart_push limit s v c)) =
             (maxDisplayedValue (state_of (LineChart_push limit s v c)), Fin 0)"
proof -
  let ?arr = "old @ [v]"
  let ?c1 = "c\<lparr>data := (data c)[s := Some ?arr]\<rparr>"
  let ?c1' = "?c1\<lparr>data := (data ?c1)[s := Some (tl ?arr)]\<rparr>"
  have len: "s < length (data c)"
    using assms(1) by (rule js_get_Some_length)
  have d1': "data ?c1' = (data c)[s := Some (tl old @ [v])]"
    using assms(2) by simp
  from getMax_floored [of ?c1' limit] assms(5,6) obtain m where
    m: "getMaxValueFromData limit ?c1' = Inr m" "floored_max (samples (data ?c1')) m"
    unfolding d1' by blast
  let ?c2 = "rescaleAxis (?c1'\<lparr>maxDisplayedValue := m\<rparr>)"
  have cap: "getAmountOfValues ?c1 = getAmountOfValues c"
    by (rule getAmountOfValues_cong) simp_all
  have ev: "evict limit s ?c1 ?arr = Done ?c2"
    using assms(2,4) m(1) by (simp add: evict_def Let_def)
  have buf: "js_get (data ?c2) s = Some (tl old @ [v])"
    using len assms(2) by (simp add: js_get_def)
  have "v \<in> samples (data ?c1')"
    using buf buffer_subset_samples [of "data ?c1'" s "tl old @ [v]"] by simp
  then have "js_le v m"
    using m(2) by (simp add: floored_max_def)
  then have nolift: "\<not> js_less (maxDisplayedValue ?c2) v"
    by (simp add: js_le_not_less)
  have res: "LineChart_push limit s v c = Done ?c2"
    using assms(1,3) cap ev nolift by (simp add: LineChart_push_def Let_def)
  have fl: "floored_max (samples (data ?c2)) (maxDisplayedValue ?c2)"
    using m(2) by simp
  have "greatest (samples (data ?c2)) (maxDisplayedValue ?c2)"
    if "\<exists>x \<in> samples (data ?c2). js_le (Fin 0) x"
    using that fl by (blast intro: floored_max_greatest)
  moreover have "rescales ?c2 = rescales c + 1" "yDomain ?c2 = (maxDisplayedValue ?c2, Fin 0)"
    by (simp_all add: rescaleAxis_def)
  ultimately show ?thesis
    unfolding res state_of.simps using buf fl by blast
qed

theorem eviction_of_max_recomputes_witness:
  "js_get (data five_and_three) 0 = Some [Fin 5] \<and> [Fin 5] \<noteq> []
   \<and> js_le (getAmountOfValues five_and_three) (Fin (of_nat (length [Fin 5] + 1)))
   \<and> js_le (maxDisplayedValue five_and_three) (hd [Fin 5])
   \<and> NaN \<notin> samples ((data five_and_three)[0 := Some (tl [Fin 5] @ [Fin 2])])
   \<and> within_limit 125000 ((data five_and_three)[0 := Some (tl [Fin 5] @ [Fin 2])])
   \<and> LineChart_push 125000 0 (Fin 2) five_and_three =
       Done (state_of (LineChart_push 125000 0 (Fin 2) five_and_three))
   \<and> js_get (data (state_of (LineChart_push 125000 0 (Fin 2) five_and_three))) 0 = Some [Fin 2]
   \<and> floored_max (samples (data (state_of (LineChart_push 125000 0 (Fin 2) five_and_three))))
       (maxDisplayedValue (state_of (LineChart_push 125000 0 (Fin 2) five_and_three)))
   \<and> maxDisplayedValue (state_of (LineChart_push 125000 0 (Fin 2) five_and_three)) = Fin 3
   \<and> rescales (state_of (LineChart_push 125000 0 (Fin 2) five_and_three)) =
       rescales five_and_three + 1"
proof -
  have d: "data five_and_three = [Some [Fin 5], Some [Fin 3]]"
    unfolding five_and_three_def by (simp add: chart_eval replicate_numeral_unfold)
  have h1: "js_get (data five_and_three) 0 = Some [Fin 5]"
    unfolding d by (simp add: js_get_def)
  have h2: "[Fin 5] \<noteq> []" by simp
  have h3: "js_le (getAmountOfValues five_and_three) (Fin (of_nat (length [Fin 5] + 1)))"
    unfolding five_and_three_def by (simp add: chart_eval replicate_numeral_unfold)
  have h4: "js_le (maxDisplayedValue five_and_three) (hd [Fin 5])"
    unfolding five_and_three_def by (simp add: chart_eval replicate_numeral_unfold)
  have h5: "NaN \<notin> samples ((data five_and_three)[0 := Some (tl [Fin 5] @ [Fin 2])])"
    unfolding d by simp
  have h6: "within_limit 125000 ((data five_and_three)[0 := Some (tl [Fin 5] @ [Fin 2])])"
    unfolding d by simp
  have three: "maxDisplayedValue (state_of (LineChart_push 125000 0 (Fin 2) five_and_three)) = Fin 3"
    unfolding five_and_three_def by (simp add: chart_eval replicate_numeral_unfold)
  have tl: "tl [Fin 5] @ [Fin 2] = [Fin 2]" by simp
  from h1 h2 h3 h4 h5 h6 three eviction_of_max_recomputes [OF h1 h2 h3 h4 h5 h6]
  show ?thesis unfolding tl by blast
qed

subsection \<open>The displayed maximum and the samples\<close>

text \<open>
  C4. The code keeps \<open>maxDisplayedValue\<close> at least every sample by recomputing it when the
  evicted sample reaches it (lines 315-321), by raising it to a larger pushed value
  (lines 327-332) and by recomputing it when a series is removed (line 397). Two
  reachable states escape this. After \<open>changePeriod(1300)\<close>, \<open>addDataType(0)\<close> and
  \<open>push(0, 1)\<close>, on an engine that accepts 125000 arguments, \<open>getMaxValueFromData\<close> throws
  after the sample 1 is appended and before \<open>maxDisplayedValue\<close> is raised: the sample 1
  stays in the buffer and the displayed maximum stays 0. And a buffer that holds a \<open>NaN\<close>
  is passed over by \<open>getMaxValueFromData\<close>: after the calls of \<open>nan_chart\<close> and
  \<open>push(1, 0)\<close> the displayed maximum is 0 and the sample 100 is in the buffer of series 0.
\<close>

theorem maxDisplayedValue_below_a_sample:
  "data (run 125000 [ChangePeriod 1300, AddDataType 0, Push 0 (Fin 1)] LineChart_init) =
     [Some (replicate 129998 (Fin 0) @ [Fin 1])]
   \<and> maxDisplayedValue (run 125000 [ChangePeriod 1300, AddDataType 0, Push 0 (Fin 1)] LineChart_init) =
       Fin 0
   \<and> \<not> js_le (Fin 1) (Fin 0)
   \<and> data (run 125000 [SetSamplingTime 2000, AddDataType 0, AddDataType 1, Push 0 NaN,
          Push 0 (Fin 100), Push 1 (Fin 200), Push 1 (Fin 0), Push 1 (Fin 0)] LineChart_init) =
       [Some [NaN, Fin 100], Some [Fin 0, Fin 0]]
   \<and> maxDisplayedValue (run 125000 [SetSamplingTime 2000, AddDataType 0, AddDataType 1, Push 0 NaN,
          Push 0 (Fin 100), Push 1 (Fin 200), Push 1 (Fin 0), Push 1 (Fin 0)] LineChart_init) =
       Fin 0
   \<and> \<not> js_le (Fin 100) (Fin 0)"
proof -
  have "data (run 125000 [ChangePeriod 1300, AddDataType 0, Push 0 (Fin 1)] LineChart_init) =
     [Some (replicate 129998 (Fin 0) @ [Fin 1])]"
    "maxDisplayedValue (run 125000 [ChangePeriod 1300, AddDataType 0, Push 0 (Fin 1)] LineChart_init) =
       Fin 0"
    by (simp_all add: chart_eval)
  moreover have "data (run 125000 [SetSamplingTime 2000, AddDataType 0, AddDataType 1, Push 0 NaN,
          Push 0 (Fin 100), Push 1 (Fin 200), Push 1 (Fin 0), Push 1 (Fin 0)] LineChart_init) =
       [Some [NaN, Fin 100], Some [Fin 0, Fin 0]]"
    "maxDisplayedValue (run 125000 [SetSamplingTime 2000, AddDataType 0, AddDataType 1, Push 0 NaN,
          Push 0 (Fin 100), Push 1 (Fin 200), Push 1 (Fin 0), Push 1 (Fin 0)] LineChart_init) =
       Fin 0"
    by (simp_all add: chart_eval replicate_numeral_unfold)
  ultimately show ?thesis
    by simp
qed

end
